theory Spec2Isabelle
  imports Complex_Main "HOL-Library.Product_Lexorder" "HOL-Library.List_Lexorder"
    "HOL-Library.Char_ord" "HOL-Library.AList"
begin

section \<open>Python exceptions\<close>

text \<open>
  Every \<^verbatim>\<open>raise\<close>, failed \<^verbatim>\<open>assert\<close>, missing key and out-of-range index of the
  Python source is a value \<open>Inl e\<close> of the result type \<open>pyerr + 'a\<close>.
\<close>

datatype pyerr = KeyError | IndexError | AssertionError | ValueError | AttributeError
  | NotImplementedError | TypeError

text \<open>\<^verbatim>\<open>d[k]\<close> on a dictionary held as an association list.\<close>

definition getitem :: "('k \<times> 'v) list \<Rightarrow> 'k \<Rightarrow> pyerr + 'v" where
  "getitem d k = (case map_of d k of None \<Rightarrow> Inl KeyError | Some v \<Rightarrow> Inr v)"

section \<open>Polarization strings (utils.py)\<close>

text \<open>
  \<^verbatim>\<open>polstr2num\<close>, \<^verbatim>\<open>polnum2str\<close>, \<^verbatim>\<open>jstr2num\<close>, \<^verbatim>\<open>jnum2str\<close>, \<^verbatim>\<open>conj_pol\<close> and
  \<^verbatim>\<open>POL_STR2NUM_DICT\<close> are imported from pyuvdata (utils.py, lines 15-16); pyuvdata is
  not part of the repository. Their tables are written out here for the names the
  repository's docstrings and tests use (linear feeds \<^verbatim>\<open>'ee'\<close>, \<^verbatim>\<open>'nn'\<close>, \<^verbatim>\<open>'en'\<close>,
  \<^verbatim>\<open>'ne'\<close> with antenna polarizations \<^verbatim>\<open>'Jee'\<close>, \<^verbatim>\<open>'Jnn'\<close>; circular feeds; Stokes).
  pyuvdata lower-cases both the table keys and the argument before the lookup, and
  raises \<^verbatim>\<open>KeyError\<close> for a name that is not in the table.
\<close>

definition ascii_upper_lower :: "(char \<times> char) list" where
  "ascii_upper_lower = zip ''ABCDEFGHIJKLMNOPQRSTUVWXYZ'' ''abcdefghijklmnopqrstuvwxyz''"

definition lower_char :: "char \<Rightarrow> char" where
  "lower_char c = (case map_of ascii_upper_lower c of Some l \<Rightarrow> l | None \<Rightarrow> c)"

definition lower :: "string \<Rightarrow> string" where
  "lower s = map lower_char s"

definition POL_STR2NUM_DICT :: "(string \<times> int) list" where
  "POL_STR2NUM_DICT =
     [(''pI'', 1), (''pQ'', 2), (''pU'', 3), (''pV'', 4),
      (''I'', 1), (''Q'', 2), (''U'', 3), (''V'', 4),
      (''rr'', -1), (''ll'', -2), (''rl'', -3), (''lr'', -4),
      (''ee'', -5), (''nn'', -6), (''en'', -7), (''ne'', -8)]"

definition POL_NUM2STR_DICT :: "(int \<times> string) list" where
  "POL_NUM2STR_DICT =
     [(1, ''pI''), (2, ''pQ''), (3, ''pU''), (4, ''pV''),
      (-1, ''rr''), (-2, ''ll''), (-3, ''rl''), (-4, ''lr''),
      (-5, ''ee''), (-6, ''nn''), (-7, ''en''), (-8, ''ne'')]"

definition JONES_STR2NUM_DICT :: "(string \<times> int) list" where
  "JONES_STR2NUM_DICT =
     [(''Jee'', -5), (''Jnn'', -6), (''Jen'', -7), (''Jne'', -8),
      (''ee'', -5), (''e'', -5), (''nn'', -6), (''n'', -6), (''en'', -7), (''ne'', -8),
      (''Jrr'', -1), (''Jll'', -2), (''Jrl'', -3), (''Jlr'', -4),
      (''rr'', -1), (''r'', -1), (''ll'', -2), (''l'', -2), (''rl'', -3), (''lr'', -4)]"

definition JONES_NUM2STR_DICT :: "(int \<times> string) list" where
  "JONES_NUM2STR_DICT =
     [(-1, ''Jrr''), (-2, ''Jll''), (-3, ''Jrl''), (-4, ''Jlr''),
      (-5, ''Jee''), (-6, ''Jnn''), (-7, ''Jen''), (-8, ''Jne'')]"

definition CONJ_POL_DICT :: "(string \<times> string) list" where
  "CONJ_POL_DICT =
     [(''ee'', ''ee''), (''nn'', ''nn''), (''en'', ''ne''), (''ne'', ''en''),
      (''rr'', ''rr''), (''ll'', ''ll''), (''rl'', ''lr''), (''lr'', ''rl''),
      (''I'', ''I''), (''Q'', ''Q''), (''U'', ''U''), (''V'', ''V''),
      (''pI'', ''pI''), (''pQ'', ''pQ''), (''pU'', ''pU''), (''pV'', ''pV'')]"

definition lower_keys :: "(string \<times> 'v) list \<Rightarrow> (string \<times> 'v) list" where
  "lower_keys d = map (\<lambda>(k, v). (lower k, v)) d"

definition polstr2num :: "string \<Rightarrow> pyerr + int" where
  "polstr2num pol = getitem (lower_keys POL_STR2NUM_DICT) (lower pol)"

definition polnum2str :: "int \<Rightarrow> pyerr + string" where
  "polnum2str num = getitem POL_NUM2STR_DICT num"

definition jstr2num :: "string \<Rightarrow> pyerr + int" where
  "jstr2num jstr = getitem (lower_keys JONES_STR2NUM_DICT) (lower jstr)"

definition jnum2str :: "int \<Rightarrow> pyerr + string" where
  "jnum2str num = getitem JONES_NUM2STR_DICT num"

definition conj_pol :: "string \<Rightarrow> pyerr + string" where
  "conj_pol pol = getitem (lower_keys CONJ_POL_DICT) (lower pol)"

text \<open>\<^verbatim>\<open>_comply_antpol\<close> and \<^verbatim>\<open>_comply_vispol\<close> (utils.py, lines 26-35).\<close>

definition comply_antpol :: "string \<Rightarrow> pyerr + string" where
  "comply_antpol antpol =
     (case jstr2num antpol of Inl e \<Rightarrow> Inl e | Inr n \<Rightarrow> jnum2str n)"

definition comply_vispol :: "string \<Rightarrow> pyerr + string" where
  "comply_vispol pol =
     (case polstr2num pol of Inl e \<Rightarrow> Inl e | Inr n \<Rightarrow> polnum2str n)"

text \<open>
  \<^verbatim>\<open>_VISPOLS\<close> and \<^verbatim>\<open>SPLIT_POL\<close> (utils.py, lines 38-39), built when the module is
  imported: the keys of \<^verbatim>\<open>POL_STR2NUM_DICT\<close> with a negative number, each split into
  the antenna polarizations of its two characters.
\<close>

definition VISPOLS :: "string list" where
  "VISPOLS = filter (\<lambda>pol. case polstr2num pol of Inr n \<Rightarrow> n < 0 | Inl _ \<Rightarrow> False)
     (map fst POL_STR2NUM_DICT)"

definition SPLIT_POL :: "(string \<times> (string \<times> string)) list" where
  "SPLIT_POL = List.map_filter
     (\<lambda>pol. case (comply_antpol (take 1 pol), comply_antpol (take 1 (drop 1 pol))) of
        (Inr p1, Inr p2) \<Rightarrow> Some (pol, (p1, p2)) | _ \<Rightarrow> None) VISPOLS"

definition split_pol :: "string \<Rightarrow> pyerr + (string \<times> string)" where
  "split_pol pol =
     (case comply_vispol pol of Inl e \<Rightarrow> Inl e | Inr p \<Rightarrow> getitem SPLIT_POL p)"

section \<open>Baseline keys (utils.py)\<close>





section \<open>Baseline cuts (abscal.py)\<close>

type_synonym blkey = "int \<times> int \<times> string"

text \<open>
  A \<^verbatim>\<open>DataContainer\<close> as \<^verbatim>\<open>cut_bls\<close> uses it: an ordered dictionary from baseline
  keys to arrays, which may carry an \<^verbatim>\<open>antpos\<close> attribute (antenna number to position
  vector). \<^verbatim>\<open>hasattr(datacontainer, 'antpos')\<close> is \<open>dc_antpos dc \<noteq> None\<close>.
\<close>

record 'a datacontainer =
  dc_items :: "(blkey \<times> 'a) list"
  dc_antpos :: "(int \<times> real list) list option"

text \<open>\<^verbatim>\<open>np.linalg.norm\<close> of a vector, and the difference of two position vectors.\<close>

definition linalg_norm :: "real list \<Rightarrow> real" where
  "linalg_norm v = sqrt (sum_list (map (\<lambda>x. x * x) v))"

definition vec_sub :: "real list \<Rightarrow> real list \<Rightarrow> real list" where
  "vec_sub a b = map2 (-) a b"

text \<open>
  Lines 1759-1764: with \<^verbatim>\<open>bls=None\<close> the baseline vectors are built from
  \<^verbatim>\<open>datacontainer.antpos\<close>, skipping every key one of whose antennas has no position.
\<close>

fun bls_from_antpos :: "(int \<times> real list) list \<Rightarrow> blkey list \<Rightarrow> (blkey \<times> real list) list
  \<Rightarrow> (blkey \<times> real list) list" where
  "bls_from_antpos ap [] bls = bls"
| "bls_from_antpos ap ((i, j, pol) # ks) bls =
     (case (map_of ap i, map_of ap j) of
        (Some ri, Some rj) \<Rightarrow> bls_from_antpos ap ks (AList.update (i, j, pol) (vec_sub rj ri) bls)
      | _ \<Rightarrow> bls_from_antpos ap ks bls)"

definition the_bls :: "'a datacontainer \<Rightarrow> (blkey \<times> real list) list option
  \<Rightarrow> pyerr + (blkey \<times> real list) list" where
  "the_bls dc bls =
     (case bls of Some b \<Rightarrow> Inr b
      | None \<Rightarrow> (case dc_antpos dc of None \<Rightarrow> Inl ValueError
                 | Some ap \<Rightarrow> Inr (bls_from_antpos ap (map fst (dc_items dc)) [])))"

text \<open>
  Lines 1765-1770, the loop over \<^verbatim>\<open>list(datacontainer.keys())\<close>. The length
  \<^verbatim>\<open>np.linalg.norm(bls[k])\<close> is taken first, so a key missing from \<^verbatim>\<open>bls\<close> raises
  \<^verbatim>\<open>KeyError\<close> there; the test \<^verbatim>\<open>k not in bls\<close> comes after it.
\<close>

fun cut_loop :: "(blkey \<times> real list) list \<Rightarrow> real \<Rightarrow> real \<Rightarrow> blkey list
  \<Rightarrow> (blkey \<times> 'a) list \<Rightarrow> pyerr + (blkey \<times> 'a) list" where
  "cut_loop bls min_bl_cut max_bl_cut [] items = Inr items"
| "cut_loop bls min_bl_cut max_bl_cut (k # ks) items =
     (case getitem bls k of Inl e \<Rightarrow> Inl e
      | Inr v \<Rightarrow>
          (let bl_len = linalg_norm v in
           if k \<notin> fst ` set bls then cut_loop bls min_bl_cut max_bl_cut ks items
           else if bl_len > max_bl_cut \<or> bl_len < min_bl_cut
             then cut_loop bls min_bl_cut max_bl_cut ks (AList.delete k items)
             else cut_loop bls min_bl_cut max_bl_cut ks items))"

text \<open>
  \<^verbatim>\<open>cut_bls\<close> (lines 1727-1774). The result is the returned container; with
  \<^verbatim>\<open>inplace=False\<close> the function works on a deep copy, so \<^verbatim>\<open>inplace\<close> only decides
  whether the caller's object is the one that was edited.
\<close>

definition cut_bls :: "'a datacontainer \<Rightarrow> (blkey \<times> real list) list option \<Rightarrow> real option
  \<Rightarrow> real option \<Rightarrow> bool \<Rightarrow> pyerr + 'a datacontainer" where
  "cut_bls dc bls min_bl_cut max_bl_cut inplace =
     (let mn = (case min_bl_cut of None \<Rightarrow> 0 | Some x \<Rightarrow> x);
          mx = (case max_bl_cut of None \<Rightarrow> 10 ^ 10 | Some x \<Rightarrow> x)
      in case the_bls dc bls of Inl e \<Rightarrow> Inl e
         | Inr b \<Rightarrow>
             (case cut_loop b mn mx (map fst (dc_items dc)) (dc_items dc) of Inl e \<Rightarrow> Inl e
              | Inr items \<Rightarrow>
                  if length items > 0 then Inr (dc\<lparr>dc_items := items\<rparr>)
                  else Inl AssertionError))"

section \<open>Floating-point values\<close>

text \<open>
  A numpy float is a finite number or one of the special values \<^verbatim>\<open>inf\<close>, \<^verbatim>\<open>-inf\<close>,
  \<^verbatim>\<open>nan\<close>. Finite values are taken as real numbers: rounding is not modelled, the special
  values are. A complex sample is a pair of floats.
\<close>

datatype flt = Fin real | PInf | NInf | NaN

type_synonym cflt = "flt \<times> flt"

fun isnan :: "flt \<Rightarrow> bool" where
  "isnan NaN = True"
| "isnan _ = False"

fun isinf :: "flt \<Rightarrow> bool" where
  "isinf PInf = True"
| "isinf NInf = True"
| "isinf _ = False"




section \<open>The iteration controller (abscal.py, \<^verbatim>\<open>post_redcal_abscal\<close>)\<close>

definition bindE :: "pyerr + 'a \<Rightarrow> ('a \<Rightarrow> pyerr + 'b) \<Rightarrow> pyerr + 'b" where
  "bindE m f = (case m of Inl e \<Rightarrow> Inl e | Inr x \<Rightarrow> f x)"










section \<open>Values of gain and flag dictionaries\<close>

text \<open>
  The values that \<^verbatim>\<open>merge_gains\<close> handles: numpy waterfalls (two-dimensional arrays, a
  list of rows) of dtype bool, int, float or complex, and the Python scalars that
  \<^verbatim>\<open>g.get(k, True)\<close> and \<^verbatim>\<open>g.get(k, 1.0)\<close> bring in. Floats are real numbers here. An
  array with no row is taken to have no column.
\<close>

datatype pyval = PyBool bool | PyInt int | PyFloat real
  | BArr "bool list list" | IArr "int list list" | FArr "real list list"
  | CArr "complex list list"

definition shape :: "'a list list \<Rightarrow> nat \<times> nat" where
  "shape a = (length a, case a of [] \<Rightarrow> 0 | row # _ \<Rightarrow> length row)"

definition rect :: "nat \<Rightarrow> nat \<Rightarrow> 'a list list \<Rightarrow> bool" where
  "rect r c a = (length a = r \<and> list_all (\<lambda>row. length row = c) a)"

text \<open>
  numpy broadcasting of two waterfalls: along each axis the lengths are equal or one of
  them is 1, else \<^verbatim>\<open>ValueError\<close>.
\<close>

definition bc_dim :: "nat \<Rightarrow> nat \<Rightarrow> nat option" where
  "bc_dim n1 n2 = (if n1 = n2 then Some n1 else if n1 = 1 then Some n2
     else if n2 = 1 then Some n1 else None)"

definition bc2 :: "('a \<Rightarrow> 'b \<Rightarrow> 'c) \<Rightarrow> 'a list list \<Rightarrow> 'b list list \<Rightarrow> pyerr + 'c list list" where
  "bc2 f a b =
     (case (bc_dim (fst (shape a)) (fst (shape b)), bc_dim (snd (shape a)) (snd (shape b))) of
        (Some r, Some c) \<Rightarrow>
          Inr (map (\<lambda>i. map (\<lambda>j.
                 f (a ! (if fst (shape a) = 1 then 0 else i) ! (if snd (shape a) = 1 then 0 else j))
                   (b ! (if fst (shape b) = 1 then 0 else i) ! (if snd (shape b) = 1 then 0 else j)))
               [0..<c]) [0..<r])
      | _ \<Rightarrow> Inl ValueError)"

text \<open>
  The dtype ladder bool < int < float < complex, and the conversions up the ladder. A
  scalar converts to a 1 x 1 waterfall, which broadcasts as the scalar does.
\<close>

fun rank :: "pyval \<Rightarrow> nat" where
  "rank (PyBool _) = 0" | "rank (PyInt _) = 1" | "rank (PyFloat _) = 2"
| "rank (BArr _) = 0" | "rank (IArr _) = 1" | "rank (FArr _) = 2" | "rank (CArr _) = 3"

fun is_scalar :: "pyval \<Rightarrow> bool" where
  "is_scalar (PyBool _) = True" | "is_scalar (PyInt _) = True" | "is_scalar (PyFloat _) = True"
| "is_scalar _ = False"

fun as_bool :: "pyval \<Rightarrow> bool list list" where
  "as_bool (PyBool b) = [[b]]" | "as_bool (BArr a) = a" | "as_bool _ = []"

fun as_int :: "pyval \<Rightarrow> int list list" where
  "as_int (PyInt i) = [[i]]" | "as_int (IArr a) = a"
| "as_int v = map (map of_bool) (as_bool v)"

fun as_float :: "pyval \<Rightarrow> real list list" where
  "as_float (PyFloat x) = [[x]]" | "as_float (FArr a) = a"
| "as_float v = map (map of_int) (as_int v)"

fun as_complex :: "pyval \<Rightarrow> complex list list" where
  "as_complex (CArr a) = a"
| "as_complex v = map (map of_real) (as_float v)"

text \<open>
  A binary operator on two values, given what it does at each dtype. Two Python scalars
  give a Python scalar, and two Python bools give an int (\<^verbatim>\<open>True + True == 2\<close>); as
  soon as one operand is an array the result is an array of the higher dtype.
\<close>

definition np_binop :: "(bool \<Rightarrow> bool \<Rightarrow> bool) \<Rightarrow> (int \<Rightarrow> int \<Rightarrow> int) \<Rightarrow> (real \<Rightarrow> real \<Rightarrow> real)
  \<Rightarrow> (complex \<Rightarrow> complex \<Rightarrow> complex) \<Rightarrow> pyval \<Rightarrow> pyval \<Rightarrow> pyerr + pyval" where
  "np_binop fb fi fr fc a b =
     (let k = max (rank a) (rank b) in
      if is_scalar a \<and> is_scalar b then
        (if k \<le> 1 then Inr (PyInt (fi (hd (hd (as_int a))) (hd (hd (as_int b)))))
         else Inr (PyFloat (fr (hd (hd (as_float a))) (hd (hd (as_float b))))))
      else if k = 0 then map_sum id BArr (bc2 fb (as_bool a) (as_bool b))
      else if k = 1 then map_sum id IArr (bc2 fi (as_int a) (as_int b))
      else if k = 2 then map_sum id FArr (bc2 fr (as_float a) (as_float b))
      else map_sum id CArr (bc2 fc (as_complex a) (as_complex b)))"

text \<open>
  \<^verbatim>\<open>operator.add\<close> and \<^verbatim>\<open>operator.mul\<close>: on bool arrays numpy's \<^verbatim>\<open>+\<close> is the logical
  or and \<^verbatim>\<open>*\<close> the logical and.
\<close>

definition operator_add :: "pyval \<Rightarrow> pyval \<Rightarrow> pyerr + pyval" where
  "operator_add = np_binop (\<or>) (+) (+) (+)"

definition operator_mul :: "pyval \<Rightarrow> pyval \<Rightarrow> pyerr + pyval" where
  "operator_mul = np_binop (\<and>) (*) (*) (*)"

text \<open>
  \<^verbatim>\<open>functools.reduce\<close> without an initial value: \<^verbatim>\<open>TypeError\<close> on an empty sequence.
\<close>

fun reduce_from :: "('a \<Rightarrow> 'a \<Rightarrow> pyerr + 'a) \<Rightarrow> 'a \<Rightarrow> 'a list \<Rightarrow> pyerr + 'a" where
  "reduce_from f acc [] = Inr acc"
| "reduce_from f acc (x # xs) = bindE (f acc x) (\<lambda>acc'. reduce_from f acc' xs)"

definition reduce :: "('a \<Rightarrow> 'a \<Rightarrow> pyerr + 'a) \<Rightarrow> 'a list \<Rightarrow> pyerr + 'a" where
  "reduce f xs = (case xs of [] \<Rightarrow> Inl TypeError | x # xs' \<Rightarrow> reduce_from f x xs')"

section \<open>Merging gain dictionaries (abscal.py, \<^verbatim>\<open>merge_gains\<close>)\<close>

type_synonym antpol = "int \<times> string"

type_synonym gaindict = "(antpol \<times> pyval) list"

text \<open>\<^verbatim>\<open>g.get(k, default)\<close>.\<close>

definition dict_get :: "('k \<times> 'v) list \<Rightarrow> 'k \<Rightarrow> 'v \<Rightarrow> 'v" where
  "dict_get g k dflt = (case map_of g k of None \<Rightarrow> dflt | Some v \<Rightarrow> v)"

text \<open>
  Lines 925-928. A Python set is held as a list without repetitions; \<^verbatim>\<open>a & b\<close> keeps
  the elements of \<^verbatim>\<open>a\<close> that are in \<^verbatim>\<open>b\<close>, and \<^verbatim>\<open>sorted\<close> orders the tuples
  lexicographically.
\<close>

definition set_and :: "'k list \<Rightarrow> 'k list \<Rightarrow> pyerr + 'k list" where
  "set_and a b = Inr (filter (\<lambda>k. k \<in> set b) a)"

definition list_add :: "'k list \<Rightarrow> 'k list \<Rightarrow> pyerr + 'k list" where
  "list_add a b = Inr (a @ b)"

definition merge_keys :: "gaindict list \<Rightarrow> bool \<Rightarrow> pyerr + antpol list" where
  "merge_keys gains merge_shared =
     (if merge_shared
      then bindE (reduce set_and (map (\<lambda>g. remdups (map fst g)) gains))
             (\<lambda>ks. Inr (sort (remdups ks)))
      else bindE (reduce list_add (map (\<lambda>g. map fst g) gains))
             (\<lambda>ks. Inr (sort (remdups ks))))"

text \<open>
  Lines 934-936: the dtype of the first value of the first dictionary decides whether
  flags were fed. \<^verbatim>\<open>gains[0]\<close> and \<^verbatim>\<open>list(...)[0]\<close> raise \<^verbatim>\<open>IndexError\<close> on an empty
  list; a Python scalar has no \<^verbatim>\<open>dtype\<close>.
\<close>

definition fed_flags :: "gaindict list \<Rightarrow> pyerr + bool" where
  "fed_flags gains =
     (case gains of [] \<Rightarrow> Inl IndexError
      | g0 # _ \<Rightarrow>
          (case g0 of [] \<Rightarrow> Inl IndexError
           | (k, v) # _ \<Rightarrow>
               if is_scalar v then Inl AttributeError
               else Inr (case v of BArr _ \<Rightarrow> True | _ \<Rightarrow> False)))"

text \<open>
  Lines 939-943, the loop over the sorted keys, and the value it stores at a key.
\<close>

definition merged_value :: "gaindict list \<Rightarrow> bool \<Rightarrow> antpol \<Rightarrow> pyerr + pyval" where
  "merged_value gains fedflags k =
     (if fedflags then reduce operator_add (map (\<lambda>g. dict_get g k (PyBool True)) gains)
      else reduce operator_mul (map (\<lambda>g. dict_get g k (PyFloat 1)) gains))"

fun merge_loop :: "gaindict list \<Rightarrow> bool \<Rightarrow> antpol list \<Rightarrow> gaindict \<Rightarrow> pyerr + gaindict" where
  "merge_loop gains fedflags [] merged_gains = Inr merged_gains"
| "merge_loop gains fedflags (k # ks) merged_gains =
     bindE (merged_value gains fedflags k)
       (\<lambda>v. merge_loop gains fedflags ks (AList.update k v merged_gains))"

definition merge_gains :: "gaindict list \<Rightarrow> bool \<Rightarrow> pyerr + gaindict" where
  "merge_gains gains merge_shared =
     bindE (merge_keys gains merge_shared) (\<lambda>keys.
     bindE (fed_flags gains) (\<lambda>fedflags.
       merge_loop gains fedflags keys []))"

text \<open>
  Every dictionary of the list has pairwise different keys (it is a dictionary), and all
  its values are complex, respectively boolean, waterfalls of \<open>r\<close> rows and \<open>c\<close> columns.
\<close>

definition complex_gains :: "nat \<Rightarrow> nat \<Rightarrow> gaindict list \<Rightarrow> bool" where
  "complex_gains r c gains =
     list_all (\<lambda>g. distinct (map fst g) \<and>
        list_all (\<lambda>(k, v). case v of CArr a \<Rightarrow> rect r c a | _ \<Rightarrow> False) g) gains"

definition flag_dicts :: "nat \<Rightarrow> nat \<Rightarrow> gaindict list \<Rightarrow> bool" where
  "flag_dicts r c gains =
     list_all (\<lambda>g. distinct (map fst g) \<and>
        list_all (\<lambda>(k, v). case v of BArr a \<Rightarrow> rect r c a | _ \<Rightarrow> False) g) gains"

text \<open>The sample at row \<open>t\<close>, column \<open>f\<close> of the value of a dictionary at a key.\<close>

definition gain_at :: "gaindict \<Rightarrow> antpol \<Rightarrow> nat \<Rightarrow> nat \<Rightarrow> complex" where
  "gain_at g k t f = (case map_of g k of Some (CArr a) \<Rightarrow> a ! t ! f | _ \<Rightarrow> 0)"

definition flag_at :: "gaindict \<Rightarrow> antpol \<Rightarrow> nat \<Rightarrow> nat \<Rightarrow> bool" where
  "flag_at g k t f = (case map_of g k of Some (BArr a) \<Rightarrow> a ! t ! f | _ \<Rightarrow> False)"

text \<open>Two small lists of dictionaries, of gains and of flags.\<close>

definition example_gains :: "gaindict list" where
  "example_gains =
     [[((0, ''Jee''), CArr [[2, 3]]), ((1, ''Jee''), CArr [[1, 1]])],
      [((0, ''Jee''), CArr [[5, 7]])]]"

definition example_flags :: "gaindict list" where
  "example_flags =
     [[((0, ''Jee''), BArr [[False, True]]), ((1, ''Jee''), BArr [[True, True]])],
      [((0, ''Jee''), BArr [[False, False]])]]"

section \<open>Phase slopes (abscal.py, \<^verbatim>\<open>dft_phase_slope_solver\<close>)\<close>











section \<open>Phase slopes (abscal.py, \<^verbatim>\<open>global_phase_slope_logcal\<close>)\<close>

type_synonym 'a waterfall = "'a list list"

type_synonym vis = "(blkey \<times> cflt waterfall) list"

type_synonym wgts = "(blkey \<times> flt waterfall) list"

type_synonym fit = "(string \<times> flt list) list"








text \<open>\<^verbatim>\<open>sorted(set(model.keys()) & set(data.keys()))\<close>.\<close>

definition shared_keys :: "(blkey \<times> 'a) list \<Rightarrow> (blkey \<times> 'b) list \<Rightarrow> blkey list" where
  "shared_keys model data =
     sort (remdups (filter (\<lambda>k. k \<in> fst ` set data) (map fst model)))"


definition ones_like :: "'a waterfall \<Rightarrow> flt waterfall" where
  "ones_like a = map (map (\<lambda>_. Fin 1)) a"




text \<open>
  Lines 831-834: the reference antenna, by default the first antenna of the first shared
  key, must have a position; all positions are then taken relative to it.
\<close>

definition centre_antpos :: "(int \<times> real list) list \<Rightarrow> blkey list \<Rightarrow> int option
  \<Rightarrow> pyerr + (int \<times> real list) list" where
  "centre_antpos antpos keys refant =
     bindE (case refant of Some r \<Rightarrow> Inr r
            | None \<Rightarrow> (case keys of [] \<Rightarrow> Inl IndexError | k # _ \<Rightarrow> Inr (fst k)))
       (\<lambda>r. case map_of antpos r of None \<Rightarrow> Inl AssertionError
             | Some p0 \<Rightarrow> Inr (map (\<lambda>(k, p). (k, vec_sub p p0)) antpos))"
















section \<open>Scrubbing non-finite values (abscal.py, \<^verbatim>\<open>fill_dict_nans\<close>)\<close>

text \<open>
  \<^verbatim>\<open>a[select] = v\<close> with a boolean mask: the mask must have the shape of the array,
  else numpy raises \<^verbatim>\<open>IndexError\<close>.
\<close>

definition mask_set :: "bool waterfall \<Rightarrow> 'a \<Rightarrow> 'a waterfall \<Rightarrow> pyerr + 'a waterfall" where
  "mask_set select v a =
     (if map length select = map length a
      then Inr (map2 (map2 (\<lambda>s x. if s then v else x)) select a)
      else Inl IndexError)"

text \<open>
  One of the two blocks of the loop body (lines 1390-1395 with \<^verbatim>\<open>np.isnan\<close>, lines
  1397-1402 with \<^verbatim>\<open>np.isinf\<close>): nothing when the fill value is \<^verbatim>\<open>None\<close>; else the
  selected samples of \<^verbatim>\<open>data[k]\<close> get the fill value and, when weights are given, the
  selected samples of \<^verbatim>\<open>wgts[k]\<close> get 0.0. The state is the pair of the two dictionaries.
\<close>

definition fill_select :: "(flt \<Rightarrow> bool) \<Rightarrow> flt option \<Rightarrow> 'k
  \<Rightarrow> ('k \<times> flt waterfall) list \<times> ('k \<times> flt waterfall) list option
  \<Rightarrow> pyerr + ('k \<times> flt waterfall) list \<times> ('k \<times> flt waterfall) list option" where
  "fill_select is_bad fill k st =
     (case fill of None \<Rightarrow> Inr st
      | Some v \<Rightarrow>
          bindE (getitem (fst st) k) (\<lambda>d.
          bindE (mask_set (map (map is_bad) d) v d) (\<lambda>d'.
            case snd st of None \<Rightarrow> Inr (AList.update k d' (fst st), None)
            | Some w \<Rightarrow>
                bindE (getitem w k) (\<lambda>wk.
                bindE (mask_set (map (map is_bad) d) (Fin 0) wk) (\<lambda>wk'.
                  Inr (AList.update k d' (fst st), Some (AList.update k wk' w)))))))"

fun fill_keys :: "flt option \<Rightarrow> flt option \<Rightarrow> 'k list
  \<Rightarrow> ('k \<times> flt waterfall) list \<times> ('k \<times> flt waterfall) list option
  \<Rightarrow> pyerr + ('k \<times> flt waterfall) list \<times> ('k \<times> flt waterfall) list option" where
  "fill_keys nan_fill inf_fill [] st = Inr st"
| "fill_keys nan_fill inf_fill (k # ks) st =
     bindE (fill_select isnan nan_fill k st) (\<lambda>st1.
     bindE (fill_select isinf inf_fill k st1) (\<lambda>st2.
       fill_keys nan_fill inf_fill ks st2))"

text \<open>
  \<^verbatim>\<open>fill_dict_nans\<close> with \<^verbatim>\<open>array=False\<close> (lines 1388-1402): both dictionaries are
  edited in place, so the result is their state after the call.
\<close>

definition fill_dict_nans :: "('k \<times> flt waterfall) list \<Rightarrow> ('k \<times> flt waterfall) list option
  \<Rightarrow> flt option \<Rightarrow> flt option
  \<Rightarrow> pyerr + ('k \<times> flt waterfall) list \<times> ('k \<times> flt waterfall) list option" where
  "fill_dict_nans data wgts nan_fill inf_fill =
     fill_keys nan_fill inf_fill (map fst data) (data, wgts)"

text \<open>\<^verbatim>\<open>fill_dict_nans\<close> with \<^verbatim>\<open>array=True\<close> (lines 1376-1386), on one array.\<close>

definition fill_array_nans :: "flt waterfall \<Rightarrow> flt waterfall option \<Rightarrow> flt option \<Rightarrow> flt option
  \<Rightarrow> pyerr + flt waterfall \<times> flt waterfall option" where
  "fill_array_nans data wgts nan_fill inf_fill =
     bindE (fill_select isnan nan_fill () ([((), data)], map_option (\<lambda>w. [((), w)]) wgts))
       (\<lambda>st1.
     bindE (fill_select isinf inf_fill () st1) (\<lambda>st2.
       Inr (snd (hd (fst st2)), map_option (\<lambda>w. snd (hd w)) (snd st2))))"

section \<open>Linear systems for linsolve\<close>

text \<open>
  The keys of \<^verbatim>\<open>ls_data\<close> and \<^verbatim>\<open>ls_wgts\<close> are linsolve equation strings such as
  \<^verbatim>\<open>"phi_0_Jee - phi_1_Jee"\<close> or \<^verbatim>\<open>"a3*eta_Jee+a3*eta_Jnn"\<close>. An equation is held as the
  list of its terms: the sign, the names of the constants of the term and the name of its
  unknown. \<open>render\<close> writes the terms out again. The names are the strings that the source
  formats, with Python's \<^verbatim>\<open>str\<close> of an integer.
\<close>

type_synonym lterm = "real \<times> string list \<times> string"

type_synonym eqn = "lterm list"

definition digit_char :: "nat \<Rightarrow> char" where
  "digit_char n = ''0123456789'' ! n"

fun str_nat :: "nat \<Rightarrow> string" where
  "str_nat n = (if n < 10 then [digit_char n] else str_nat (n div 10) @ [digit_char (n mod 10)])"

definition str_int :: "int \<Rightarrow> string" where
  "str_int i = (if i < 0 then CHR ''-'' # str_nat (nat (- i)) else str_nat (nat i))"

definition render_term :: "lterm \<Rightarrow> string" where
  "render_term t = (case t of (c, consts, x) \<Rightarrow>
     (if c < 0 then ''-'' else ''+'') @ concat (map (\<lambda>a. a @ ''*'') consts) @ x)"

definition render :: "eqn \<Rightarrow> string" where
  "render e = concat (map render_term e)"

type_synonym wfit = "(string \<times> flt waterfall) list"

text \<open>
  The arguments of \<^verbatim>\<open>linsolve.LinearSolver\<close>: \<^verbatim>\<open>ls_data\<close>, \<^verbatim>\<open>ls_wgts\<close> and the constants
  of \<^verbatim>\<open>ls_design_matrix\<close>.
\<close>

type_synonym linsys = "(eqn \<times> flt waterfall) list \<times> (eqn \<times> flt waterfall) list
  \<times> (string \<times> real) list"

text \<open>
  The numerical routines that the solvers call and this theory leaves open:
  \<^item> \<open>np_log_abs_div\<close>: \<^verbatim>\<open>np.log(np.abs(d / m))\<close> at one sample;
  \<^item> \<open>np_angle_div\<close>: \<^verbatim>\<open>np.angle(d / m)\<close> at one sample;
  \<^item> \<open>np_div\<close>: the complex quotient \<^verbatim>\<open>d / m\<close> at one sample;
  \<^item> \<open>np_nanmean\<close>: \<^verbatim>\<open>np.nanmean\<close> of one row of weights;
  \<^item> \<open>np_exp\<close>: \<^verbatim>\<open>np.exp\<close> of a float;
  \<^item> \<open>fft_dly\<close>: \<^verbatim>\<open>utils.fft_dly(ratio, df, f0=f0, wgts=w, medfilt=..., kernel=...,
    edge_cut=...)\<close>, which returns the delays and the offsets, one row per time;
  \<^item> \<open>linsolve\<close>: \<^verbatim>\<open>linsolve.LinearSolver(ls_data, wgts=ls_wgts, **consts).solve()\<close>;
  \<^item> \<open>slope_gains\<close>: the \<^verbatim>\<open>einsum\<close> expressions that turn a fit of slopes into gain
    waterfalls (\<^verbatim>\<open>return_gains=True\<close> in \<^verbatim>\<open>TT_phs_logcal\<close> and \<^verbatim>\<open>delay_slope_lincal\<close>).
\<close>

record numlib =
  np_log_abs_div :: "cflt \<Rightarrow> cflt \<Rightarrow> flt"
  np_angle_div :: "cflt \<Rightarrow> cflt \<Rightarrow> flt"
  np_div :: "cflt \<Rightarrow> cflt \<Rightarrow> cflt"
  np_nanmean :: "flt list \<Rightarrow> flt"
  np_exp :: "flt \<Rightarrow> flt"
  fft_dly :: "cflt waterfall \<Rightarrow> real \<Rightarrow> real \<Rightarrow> flt waterfall \<Rightarrow> bool \<Rightarrow> nat \<times> nat \<Rightarrow> int
    \<Rightarrow> pyerr + flt waterfall \<times> flt waterfall"
  linsolve :: "linsys \<Rightarrow> pyerr + wfit"
  slope_gains :: "(int \<times> real list) list \<Rightarrow> wfit \<Rightarrow> antpol list \<Rightarrow> pyerr + (antpol \<times> cflt waterfall) list"

section \<open>The solvers (abscal.py)\<close>

text \<open>
  The three containers that a solver is given. The model and the data are dictionaries of
  complex waterfalls, the weights are optional. A solver returns its fit and the
  containers as the call leaves them.
\<close>

record containers =
  c_model :: vis
  c_data :: vis
  c_wgts :: "wgts option"

text \<open>
  \<^verbatim>\<open>odict([(k, f(data[k], model[k])) for k in keys])\<close> for an elementwise \<open>f\<close>.
\<close>

fun observe :: "('a \<Rightarrow> 'a \<Rightarrow> 'b) \<Rightarrow> blkey list \<Rightarrow> (blkey \<times> 'a waterfall) list
  \<Rightarrow> (blkey \<times> 'a waterfall) list \<Rightarrow> pyerr + (blkey \<times> 'b waterfall) list" where
  "observe f [] model data = Inr []"
| "observe f (k # ks) model data =
     bindE (getitem data k) (\<lambda>d.
     bindE (getitem model k) (\<lambda>m.
     bindE (bc2 f d m) (\<lambda>y.
     bindE (observe f ks model data) (\<lambda>rest. Inr ((k, y) # rest)))))"

text \<open>
  The weights when none are given (\<^verbatim>\<open>np.ones_like(ydata[k], dtype=np.float)\<close> for each
  key), then \<^verbatim>\<open>fill_dict_nans(ydata, wgts=wgts, nan_fill=0.0, inf_fill=0.0)\<close>. The result
  is \<^verbatim>\<open>ydata\<close>, the weights that the solver goes on with, and the weights container of
  the caller.
\<close>

definition scrub :: "(blkey \<times> flt waterfall) list \<Rightarrow> wgts option
  \<Rightarrow> pyerr + (blkey \<times> flt waterfall) list \<times> wgts \<times> wgts option" where
  "scrub ydata wgts =
     (let w0 = (case wgts of None \<Rightarrow> map (\<lambda>(k, y). (k, ones_like y)) ydata | Some w \<Rightarrow> w) in
      bindE (fill_dict_nans ydata (Some w0) (Some (Fin 0)) (Some (Fin 0))) (\<lambda>(ydata', w').
        case w' of None \<Rightarrow> Inl TypeError
        | Some w1 \<Rightarrow> Inr (ydata', w1, (case wgts of None \<Rightarrow> None | Some _ \<Rightarrow> Some w1))))"

text \<open>
  \<^verbatim>\<open>odict([(eqns[k], ydata[k]) ...])\<close> and \<^verbatim>\<open>odict([(eqns[k], wgts[k]) ...])\<close>: the
  equation of each key, formed from the key and its position \<open>i\<close> in \<^verbatim>\<open>keys\<close>.
\<close>

fun ls_dict :: "(nat \<Rightarrow> blkey \<Rightarrow> pyerr + eqn) \<Rightarrow> nat \<Rightarrow> blkey list \<Rightarrow> (blkey \<times> 'v) list
  \<Rightarrow> (eqn \<times> 'v) list \<Rightarrow> pyerr + (eqn \<times> 'v) list" where
  "ls_dict eqn_of i [] vals acc = Inr acc"
| "ls_dict eqn_of i (k # ks) vals acc =
     bindE (eqn_of i k) (\<lambda>e.
     bindE (getitem vals k) (\<lambda>v.
       ls_dict eqn_of (Suc i) ks vals (AList.update e v acc)))"



definition abs_amp_eqn :: "nat \<Rightarrow> blkey \<Rightarrow> pyerr + eqn" where
  "abs_amp_eqn i k = (case k of (a1, a2, pol) \<Rightarrow>
     bindE (split_pol pol) (\<lambda>(p1, p2).
       Inr [(1, [''a'' @ str_nat i], ''eta_'' @ p1), (1, [''a'' @ str_nat i], ''eta_'' @ p2)]))"

text \<open>
  \<^verbatim>\<open>r_ew[ant]\<close> and \<^verbatim>\<open>r_ns[ant]\<close>: the names of the position constants of an antenna,
  \<^verbatim>\<open>KeyError\<close> for an antenna that has no position.
\<close>

definition r_ew :: "int list \<Rightarrow> int \<Rightarrow> pyerr + string" where
  "r_ew ants a = (if a \<in> set ants then Inr (''r_ew_'' @ str_int a) else Inl KeyError)"

definition r_ns :: "int list \<Rightarrow> int \<Rightarrow> pyerr + string" where
  "r_ns ants a = (if a \<in> set ants then Inr (''r_ns_'' @ str_int a) else Inl KeyError)"

definition TT_phs_eqn :: "int list \<Rightarrow> bool \<Rightarrow> nat \<Rightarrow> blkey \<Rightarrow> pyerr + eqn" where
  "TT_phs_eqn ants four_pol i k = (case k of (ant1, ant2, pol) \<Rightarrow>
     bindE (split_pol pol) (\<lambda>(p1, p2).
     bindE (r_ew ants ant1) (\<lambda>e1. bindE (r_ns ants ant1) (\<lambda>n1.
     bindE (r_ew ants ant2) (\<lambda>e2. bindE (r_ns ants ant2) (\<lambda>n2.
       if four_pol then
         Inr [(1, [''a1''], ''psi_'' @ p1), (- 1, [''a2''], ''psi_'' @ p2),
              (1, [e1], ''Phi_ew''), (1, [n1], ''Phi_ns''),
              (- 1, [e2], ''Phi_ew''), (- 1, [n2], ''Phi_ns'')]
       else
         Inr [(1, [''a1''], ''psi_'' @ p1), (- 1, [''a2''], ''psi_'' @ p2),
              (1, [e1], ''Phi_ew_'' @ p1), (1, [n1], ''Phi_ns_'' @ p1),
              (- 1, [e2], ''Phi_ew_'' @ p2), (- 1, [n2], ''Phi_ns_'' @ p2)]))))))"

text \<open>
  What the four logarithmic solvers share: the observed quantity of the shared keys, the
  weights and the scrubbing; then the two dictionaries for linsolve.
\<close>

definition log_observed :: "(cflt \<Rightarrow> cflt \<Rightarrow> flt) \<Rightarrow> containers
  \<Rightarrow> pyerr + (blkey list \<times> (blkey \<times> flt waterfall) list \<times> wgts) \<times> containers" where
  "log_observed f c =
     (let keys = shared_keys (c_model c) (c_data c) in
      bindE (observe f keys (c_model c) (c_data c)) (\<lambda>ydata.
      bindE (scrub ydata (c_wgts c)) (\<lambda>(ydata, wgts, caller_wgts).
        Inr ((keys, ydata, wgts), c\<lparr>c_wgts := caller_wgts\<rparr>))))"

definition ls_dicts :: "(nat \<Rightarrow> blkey \<Rightarrow> pyerr + eqn) \<Rightarrow> blkey list \<Rightarrow> (blkey \<times> flt waterfall) list
  \<Rightarrow> wgts \<Rightarrow> pyerr + (eqn \<times> flt waterfall) list \<times> (eqn \<times> flt waterfall) list" where
  "ls_dicts eqn_of keys ydata wgts =
     bindE (ls_dict eqn_of 0 keys ydata []) (\<lambda>ls_data.
     bindE (ls_dict eqn_of 0 keys wgts []) (\<lambda>ls_wgts. Inr (ls_data, ls_wgts)))"

definition log_system :: "(cflt \<Rightarrow> cflt \<Rightarrow> flt) \<Rightarrow> (nat \<Rightarrow> blkey \<Rightarrow> pyerr + eqn) \<Rightarrow> containers
  \<Rightarrow> pyerr + (blkey list \<times> (blkey \<times> flt waterfall) list \<times> wgts
       \<times> (eqn \<times> flt waterfall) list \<times> (eqn \<times> flt waterfall) list) \<times> containers" where
  "log_system f eqn_of c =
     bindE (log_observed f c) (\<lambda>((keys, ydata, wgts), c').
     bindE (ls_dicts eqn_of keys ydata wgts) (\<lambda>(ls_data, ls_wgts).
       Inr ((keys, ydata, wgts, ls_data, ls_wgts), c')))"



text \<open>
  \<^verbatim>\<open>abs_amp_logcal\<close> (lines 54-130): the constants \<^verbatim>\<open>a0, a1, ...\<close> are all 1.0; with
  \<^verbatim>\<open>return_gains\<close> the result is \<^verbatim>\<open>np.exp(fit['eta_' + ant[1]]).astype(complex)\<close> for
  each \<^verbatim>\<open>ant\<close> of \<^verbatim>\<open>gain_ants\<close>.
\<close>

definition abs_amp_logcal_system :: "numlib \<Rightarrow> containers \<Rightarrow> pyerr + linsys \<times> containers" where
  "abs_amp_logcal_system nl c =
     bindE (log_system (np_log_abs_div nl) abs_amp_eqn c)
       (\<lambda>((keys, ydata, wgts, ls_data, ls_wgts), c').
          Inr ((ls_data, ls_wgts, map (\<lambda>i. (''a'' @ str_nat i, 1)) [0..<length keys]), c'))"

definition abs_amp_logcal :: "numlib \<Rightarrow> containers \<Rightarrow> pyerr + wfit \<times> containers" where
  "abs_amp_logcal nl c =
     bindE (abs_amp_logcal_system nl c) (\<lambda>(sys, c').
     bindE (linsolve nl sys) (\<lambda>fit. Inr (fit, c')))"

fun gains_of_eta :: "numlib \<Rightarrow> wfit \<Rightarrow> antpol list \<Rightarrow> (antpol \<times> cflt waterfall) list
  \<Rightarrow> pyerr + (antpol \<times> cflt waterfall) list" where
  "gains_of_eta nl fit [] gains = Inr gains"
| "gains_of_eta nl fit (ant # ants) gains =
     bindE (getitem fit (''eta_'' @ snd ant)) (\<lambda>eta.
       gains_of_eta nl fit ants
         (AList.update ant (map (map (\<lambda>x. (np_exp nl x, Fin 0))) eta) gains))"

definition abs_amp_logcal_gains :: "numlib \<Rightarrow> containers \<Rightarrow> antpol list
  \<Rightarrow> pyerr + (antpol \<times> cflt waterfall) list \<times> containers" where
  "abs_amp_logcal_gains nl c gain_ants =
     bindE (abs_amp_logcal nl c) (\<lambda>(fit, c').
     bindE (gains_of_eta nl fit gain_ants []) (\<lambda>gains. Inr (gains, c')))"









text \<open>
  \<^verbatim>\<open>TT_phs_logcal\<close> (lines 133-266): the reference antenna must have a position, the
  positions are centred on it and enter as the constants \<^verbatim>\<open>r_ew_{a}\<close>, \<^verbatim>\<open>r_ns_{a}\<close>;
  \<^verbatim>\<open>a1\<close> and \<^verbatim>\<open>a2\<close> are 0.0 with \<^verbatim>\<open>zero_psi\<close> and 1.0 without.
\<close>

definition vec_get :: "real list \<Rightarrow> nat \<Rightarrow> pyerr + real" where
  "vec_get v i = (if i < length v then Inr (v ! i) else Inl IndexError)"

fun position_consts :: "string \<Rightarrow> nat \<Rightarrow> (int \<times> real list) list \<Rightarrow> int list
  \<Rightarrow> pyerr + (string \<times> real) list" where
  "position_consts name i antpos [] = Inr []"
| "position_consts name i antpos (a # ants) =
     bindE (getitem antpos a) (\<lambda>v.
     bindE (vec_get v i) (\<lambda>x.
     bindE (position_consts name i antpos ants) (\<lambda>rest.
       Inr ((name @ str_int a, x) # rest))))"

definition design_matrix :: "(int \<times> real list) list \<Rightarrow> int list \<Rightarrow> pyerr + (string \<times> real) list" where
  "design_matrix antpos ants =
     bindE (position_consts ''r_ew_'' 0 antpos ants) (\<lambda>ew.
     bindE (position_consts ''r_ns_'' 1 antpos ants) (\<lambda>ns. Inr (ew @ ns)))"

definition TT_phs_logcal_system :: "numlib \<Rightarrow> containers \<Rightarrow> (int \<times> real list) list \<Rightarrow> int option
  \<Rightarrow> bool \<Rightarrow> bool \<Rightarrow> pyerr + (linsys \<times> (int \<times> real list) list) \<times> containers" where
  "TT_phs_logcal_system nl c antpos refant zero_psi four_pol =
     bindE (log_observed (np_angle_div nl) c) (\<lambda>((keys, ydata, wgts), c').
     bindE (centre_antpos antpos keys refant) (\<lambda>antpos'.
       (let ants = sort (remdups (map fst antpos)) in
        bindE (ls_dicts (TT_phs_eqn ants four_pol) keys ydata wgts) (\<lambda>(ls_data, ls_wgts).
        bindE (design_matrix antpos' ants) (\<lambda>dm.
          Inr (((ls_data, ls_wgts,
                 dm @ (if zero_psi then [(''a1'', 0), (''a2'', 0)] else [(''a1'', 1), (''a2'', 1)])),
                antpos'), c'))))))"


definition TT_phs_logcal_gains :: "numlib \<Rightarrow> containers \<Rightarrow> (int \<times> real list) list \<Rightarrow> int option
  \<Rightarrow> bool \<Rightarrow> bool \<Rightarrow> antpol list \<Rightarrow> pyerr + (antpol \<times> cflt waterfall) list \<times> containers" where
  "TT_phs_logcal_gains nl c antpos refant zero_psi four_pol gain_ants =
     bindE (TT_phs_logcal_system nl c antpos refant zero_psi four_pol) (\<lambda>((sys, antpos'), c').
     bindE (linsolve nl sys) (\<lambda>fit.
     bindE (slope_gains nl antpos' fit gain_ants) (\<lambda>gains. Inr (gains, c'))))"

section \<open>The delay solvers (abscal.py)\<close>














section \<open>The effect of a solver on the weights\<close>





section \<open>An instance of the numerical routines\<close>

text \<open>
  The routines on the values where they are exact, for the examples of this theory. A
  complex sample with two finite parts is a complex number; the quotient by zero and
  the functions of it are as numpy gives them (\<^verbatim>\<open>0/0\<close> is \<^verbatim>\<open>nan\<close>, \<^verbatim>\<open>log(0)\<close> is
  \<^verbatim>\<open>-inf\<close>, \<^verbatim>\<open>angle(0)\<close> is 0); a sample with a part that is not finite is not followed
  and gives \<^verbatim>\<open>nan\<close>.
\<close>

definition cfin :: "cflt \<Rightarrow> complex option" where
  "cfin z = (case z of (Fin a, Fin b) \<Rightarrow> Some (Complex a b) | _ \<Rightarrow> None)"

definition exact_log_abs_div :: "cflt \<Rightarrow> cflt \<Rightarrow> flt" where
  "exact_log_abs_div d m =
     (case (cfin d, cfin m) of
        (Some x, Some y) \<Rightarrow>
          if y = 0 then (if x = 0 then NaN else PInf)
          else if x = 0 then NInf else Fin (ln (cmod (x / y)))
      | _ \<Rightarrow> NaN)"















section \<open>The meaning of a linear system\<close>










section \<open>Properties of the baseline keys\<close>


lemma lower_keys_POL_STR2NUM:
  "lower_keys POL_STR2NUM_DICT =
     [(''pi'', 1), (''pq'', 2), (''pu'', 3), (''pv'', 4),
      (''i'', 1), (''q'', 2), (''u'', 3), (''v'', 4),
      (''rr'', -1), (''ll'', -2), (''rl'', -3), (''lr'', -4),
      (''ee'', -5), (''nn'', -6), (''en'', -7), (''ne'', -8)]"
  by (simp add: lower_keys_def POL_STR2NUM_DICT_def lower_def lower_char_def
      ascii_upper_lower_def)

lemma lower_keys_CONJ_POL:
  "lower_keys CONJ_POL_DICT =
     [(''ee'', ''ee''), (''nn'', ''nn''), (''en'', ''ne''), (''ne'', ''en''),
      (''rr'', ''rr''), (''ll'', ''ll''), (''rl'', ''lr''), (''lr'', ''rl''),
      (''i'', ''I''), (''q'', ''Q''), (''u'', ''U''), (''v'', ''V''),
      (''pi'', ''pI''), (''pq'', ''pQ''), (''pu'', ''pU''), (''pv'', ''pV'')]"
  by (simp add: lower_keys_def CONJ_POL_DICT_def lower_def lower_char_def
      ascii_upper_lower_def)

lemmas pol_eval = comply_vispol_def polstr2num_def polnum2str_def conj_pol_def getitem_def
  lower_keys_POL_STR2NUM lower_keys_CONJ_POL POL_NUM2STR_DICT_def lower_def lower_char_def
  ascii_upper_lower_def






section \<open>Properties of the baseline cut\<close>

lemma getitem_Inl: "getitem d k = Inl e \<Longrightarrow> e = KeyError"
  by (simp add: getitem_def split: option.splits)

lemma getitem_missing: "k \<notin> fst ` set d \<Longrightarrow> getitem d k = Inl KeyError"
  by (simp add: getitem_def map_of_eq_None_iff [THEN iffD2])

lemma getitem_present: "getitem d k = Inr v \<Longrightarrow> k \<in> fst ` set d"
  by (auto simp: getitem_def split: option.splits dest: map_of_SomeD intro: rev_image_eqI)

lemma cut_loop_missing:
  "k \<in> set ks \<Longrightarrow> k \<notin> fst ` set bls \<Longrightarrow> cut_loop bls mn mx ks items = Inl KeyError"
proof (induction ks arbitrary: items)
  case Nil
  then show ?case by simp
next
  case (Cons a ks)
  show ?case
  proof (cases "getitem bls a")
    case (Inl e)
    then show ?thesis using getitem_Inl [OF Inl] by simp
  next
    case (Inr v)
    then have "a \<in> fst ` set bls" by (rule getitem_present)
    with Cons.prems have "k \<in> set ks" by auto
    with Cons.IH Cons.prems(2) Inr show ?thesis by (simp add: Let_def)
  qed
qed

text \<open>
  C10. Whenever \<^verbatim>\<open>cut_bls\<close> has a \<^verbatim>\<open>bls\<close> dictionary (given, or built from
  \<^verbatim>\<open>antpos\<close>) and the container holds a key that is not in it, the call raises
  \<^verbatim>\<open>KeyError\<close>: it returns no container. The test \<^verbatim>\<open>k not in bls\<close> is reached only
  after \<^verbatim>\<open>bls[k]\<close> succeeded, that is only with keys that are in \<^verbatim>\<open>bls\<close>.
\<close>

theorem cut_bls_missing_key_raises:
  assumes "the_bls dc bls = Inr b"
    and "k \<in> fst ` set (dc_items dc)"
    and "k \<notin> fst ` set b"
  shows "cut_bls dc bls min_bl_cut max_bl_cut inplace = Inl KeyError \<and>
    (\<forall>k' v. getitem b k' = Inr v \<longrightarrow> k' \<in> fst ` set b)"
proof -
  from assms(2) have "k \<in> set (map fst (dc_items dc))" by simp
  note raises = cut_loop_missing [OF this assms(3)]
  have "cut_bls dc bls min_bl_cut max_bl_cut inplace = Inl KeyError"
    by (simp add: cut_bls_def Let_def assms(1) raises)
  moreover have "\<forall>k' v. getitem b k' = Inr v \<longrightarrow> k' \<in> fst ` set b"
    using getitem_present by fastforce
  ultimately show ?thesis by blast
qed

theorem cut_bls_missing_key_raises_witness:
  "cut_bls \<lparr>dc_items = [((0, 1, ''ee''), [1::int]), ((0, 2, ''ee''), [2])], dc_antpos = None\<rparr>
     (Some [((0, 1, ''ee''), [3, 4])]) None None False = Inl KeyError \<and>
   cut_bls \<lparr>dc_items = [((0, 1, ''ee''), [1::int]), ((0, 2, ''ee''), [2])],
       dc_antpos = Some [(0, [0, 0]), (1, [3, 4])]\<rparr>
     None None None False = Inl KeyError"
proof -
  let ?k = "(0::int, 2::int, ''ee'')"
  let ?items = "[((0, 1, ''ee''), [1::int]), ((0, 2, ''ee''), [2])]"
  let ?dc1 = "\<lparr>dc_items = ?items, dc_antpos = None\<rparr>"
  let ?dc2 = "\<lparr>dc_items = ?items, dc_antpos = Some [(0, [0, 0]), (1, [3, 4])]\<rparr>"
  let ?b1 = "[((0::int, 1::int, ''ee''), [3::real, 4])]"
  have b1: "the_bls ?dc1 (Some ?b1) = Inr ?b1" by (simp add: the_bls_def)
  have b2: "the_bls ?dc2 None = Inr ?b1" by (simp add: the_bls_def vec_sub_def)
  have k1: "?k \<in> fst ` set (dc_items ?dc1)" by simp
  have k2: "?k \<in> fst ` set (dc_items ?dc2)" by simp
  have nk: "?k \<notin> fst ` set ?b1" by simp
  from cut_bls_missing_key_raises [OF b1 k1 nk, of None None False]
    cut_bls_missing_key_raises [OF b2 k2 nk, of None None False]
  show ?thesis by blast
qed

section \<open>Properties of the iteration controller\<close>


lemma bindE_simps [simp]: "bindE (Inr x) f = f x" "bindE (Inl e) f = Inl e"
  by (simp_all add: bindE_def)











section \<open>Properties of \<^verbatim>\<open>merge_gains\<close>\<close>

lemma shape_rect: "rect r c a \<Longrightarrow> 0 < r \<Longrightarrow> shape a = (r, c)"
  by (cases a) (auto simp: rect_def shape_def)

lemma shape_rect0: "rect 0 c a \<Longrightarrow> shape a = (0, 0)"
  by (cases a) (auto simp: rect_def shape_def)

lemma rect_nth: "rect r c a \<Longrightarrow> t < r \<Longrightarrow> length (a ! t) = c"
  by (auto simp: rect_def list_all_length)

lemma bc2_rect:
  assumes "rect r c a" and "rect r c b"
  shows "\<exists>m. bc2 f a b = Inr m \<and> rect r c m \<and> (\<forall>t<r. \<forall>j<c. m ! t ! j = f (a ! t ! j) (b ! t ! j))"
proof (cases "r = 0")
  case True
  with assms show ?thesis
    by (auto simp: bc2_def shape_rect0 bc_dim_def rect_def)
next
  case False
  then have sa: "shape a = (r, c)" and sb: "shape b = (r, c)"
    using assms by (simp_all add: shape_rect)
  show ?thesis
    by (auto simp: bc2_def sa sb bc_dim_def rect_def list_all_length)
qed



lemma operator_mul_CArr:
  assumes "rect r c a" and "rect r c b"
  shows "\<exists>m. operator_mul (CArr a) (CArr b) = Inr (CArr m) \<and> rect r c m \<and>
           (\<forall>t<r. \<forall>j<c. m ! t ! j = a ! t ! j * b ! t ! j)"
  using bc2_rect [OF assms, of "(*)"] by (auto simp: operator_mul_def np_binop_def)

lemma operator_add_BArr:
  assumes "rect r c a" and "rect r c b"
  shows "\<exists>m. operator_add (BArr a) (BArr b) = Inr (BArr m) \<and> rect r c m \<and>
           (\<forall>t<r. \<forall>j<c. m ! t ! j = (a ! t ! j \<or> b ! t ! j))"
  using bc2_rect [OF assms, of "(\<or>)"] by (auto simp: operator_add_def np_binop_def)

lemma reduce_from_mul:
  assumes "rect r c a" and "list_all (rect r c) bs"
  shows "\<exists>m. reduce_from operator_mul (CArr a) (map CArr bs) = Inr (CArr m) \<and> rect r c m \<and>
           (\<forall>t<r. \<forall>j<c. m ! t ! j = a ! t ! j * prod_list (map (\<lambda>b. b ! t ! j) bs))"
  using assms
proof (induction bs arbitrary: a)
  case Nil
  then show ?case by simp
next
  case (Cons b bs)
  from Cons.prems have rb: "rect r c b" and rbs: "list_all (rect r c) bs" by simp_all
  from operator_mul_CArr [OF Cons.prems(1) rb]
  obtain m1 where 1: "operator_mul (CArr a) (CArr b) = Inr (CArr m1)" and r1: "rect r c m1"
    and e1: "\<forall>t<r. \<forall>j<c. m1 ! t ! j = a ! t ! j * b ! t ! j" by blast
  from Cons.IH [OF r1 rbs]
  obtain m where 2: "reduce_from operator_mul (CArr m1) (map CArr bs) = Inr (CArr m)"
    and r2: "rect r c m"
    and e2: "\<forall>t<r. \<forall>j<c. m ! t ! j = m1 ! t ! j * prod_list (map (\<lambda>b. b ! t ! j) bs)" by blast
  show ?case
    using 1 2 r2 e1 e2 by (auto simp: mult.assoc)
qed

lemma reduce_from_add:
  assumes "rect r c a" and "list_all (rect r c) bs"
  shows "\<exists>m. reduce_from operator_add (BArr a) (map BArr bs) = Inr (BArr m) \<and> rect r c m \<and>
           (\<forall>t<r. \<forall>j<c. m ! t ! j = (a ! t ! j \<or> list_ex (\<lambda>b. b ! t ! j) bs))"
  using assms
proof (induction bs arbitrary: a)
  case Nil
  then show ?case by simp
next
  case (Cons b bs)
  from Cons.prems have rb: "rect r c b" and rbs: "list_all (rect r c) bs" by simp_all
  from operator_add_BArr [OF Cons.prems(1) rb]
  obtain m1 where 1: "operator_add (BArr a) (BArr b) = Inr (BArr m1)" and r1: "rect r c m1"
    and e1: "\<forall>t<r. \<forall>j<c. m1 ! t ! j = (a ! t ! j \<or> b ! t ! j)" by blast
  from Cons.IH [OF r1 rbs]
  obtain m where 2: "reduce_from operator_add (BArr m1) (map BArr bs) = Inr (BArr m)"
    and r2: "rect r c m"
    and e2: "\<forall>t<r. \<forall>j<c. m ! t ! j = (m1 ! t ! j \<or> list_ex (\<lambda>b. b ! t ! j) bs)" by blast
  show ?case
    using 1 2 r2 e1 e2 by auto
qed

lemma reduce_from_set_and:
  "reduce_from set_and acc xs = Inr (filter (\<lambda>k. \<forall>x\<in>set xs. k \<in> set x) acc)"
proof (induction xs arbitrary: acc)
  case Nil
  then show ?case by simp
next
  case (Cons x xs)
  have f: "filter (\<lambda>k. \<forall>y\<in>set xs. k \<in> set y) (filter (\<lambda>k. k \<in> set x) acc)
      = filter (\<lambda>k. \<forall>y\<in>set (x # xs). k \<in> set y) acc"
    by (induction acc) auto
  have sa: "set_and acc x = Inr (filter (\<lambda>k. k \<in> set x) acc)"
    by (simp add: set_and_def)
  have "reduce_from set_and acc (x # xs) = reduce_from set_and (filter (\<lambda>k. k \<in> set x) acc) xs"
    by (simp add: sa)
  also have "\<dots> = Inr (filter (\<lambda>k. \<forall>y\<in>set xs. k \<in> set y) (filter (\<lambda>k. k \<in> set x) acc))"
    by (rule Cons.IH)
  finally show ?case unfolding f .
qed

lemma merge_keys_shared:
  assumes "gains \<noteq> []"
  shows "\<exists>ks. merge_keys gains True = Inr ks \<and> sorted ks \<and> distinct ks \<and>
           set ks = (\<Inter>g\<in>set gains. fst ` set g)"
proof -
  obtain g gs where g: "gains = g # gs" using assms by (cases gains) auto
  let ?ks = "filter (\<lambda>k. \<forall>x\<in>set (map (\<lambda>g. remdups (map fst g)) gs). k \<in> set x)
         (remdups (map fst g))"
  have mk: "merge_keys gains True = Inr (sort (remdups ?ks))"
    by (simp add: merge_keys_def reduce_def g reduce_from_set_and)
  have "set ?ks = (\<Inter>g\<in>set gains. fst ` set g)"
    unfolding g by auto
  then have "set (sort (remdups ?ks)) = (\<Inter>g\<in>set gains. fst ` set g)"
    by simp
  moreover have "sorted (sort (remdups ?ks))" "distinct (sort (remdups ?ks))"
    by simp_all
  ultimately show ?thesis using mk by blast
qed

lemma merge_loop_ok:
  assumes "\<And>k. k \<in> set ks \<Longrightarrow> \<exists>v. merged_value gains fed k = Inr v \<and> P k v"
    and "distinct ks" and "set ks \<inter> fst ` set acc = {}"
  shows "\<exists>m. merge_loop gains fed ks acc = Inr m \<and> map fst m = map fst acc @ ks \<and>
           (\<forall>k\<in>set ks. \<exists>v. map_of m k = Some v \<and> P k v) \<and>
           (\<forall>k. k \<notin> set ks \<longrightarrow> map_of m k = map_of acc k)"
  using assms
proof (induction ks arbitrary: acc)
  case Nil
  then show ?case by simp
next
  case (Cons k ks)
  from Cons.prems(1) [of k] obtain v where
    v: "merged_value gains fed k = Inr v" and pv: "P k v" by auto
  let ?acc = "AList.update k v acc"
  have knew: "k \<notin> fst ` set acc" using Cons.prems(3) by auto
  have keys: "map fst ?acc = map fst acc @ [k]"
    using knew by (simp add: update_keys)
  have disj: "set ks \<inter> fst ` set ?acc = {}"
  proof -
    have "fst ` set ?acc = set (map fst ?acc)" by simp
    also have "\<dots> = insert k (fst ` set acc)" unfolding keys by auto
    finally show ?thesis using Cons.prems(2,3) by auto
  qed
  have "\<exists>m. merge_loop gains fed ks ?acc = Inr m \<and> map fst m = map fst ?acc @ ks \<and>
           (\<forall>k\<in>set ks. \<exists>v. map_of m k = Some v \<and> P k v) \<and>
           (\<forall>k. k \<notin> set ks \<longrightarrow> map_of m k = map_of ?acc k)"
    using Cons.prems(1,2) by (intro Cons.IH disj) auto
  then obtain m where m: "merge_loop gains fed ks ?acc = Inr m"
    and mk: "map fst m = map fst ?acc @ ks"
    and mv: "\<forall>k\<in>set ks. \<exists>v. map_of m k = Some v \<and> P k v"
    and mo: "\<forall>k. k \<notin> set ks \<longrightarrow> map_of m k = map_of ?acc k" by blast
  have loop: "merge_loop gains fed (k # ks) acc = Inr m"
    using v m by simp
  have kk: "map_of m k = Some v"
    using mo [rule_format, of k] Cons.prems(2) by (simp add: update_conv')
  have others: "\<forall>k'. k' \<notin> set (k # ks) \<longrightarrow> map_of m k' = map_of acc k'"
    using mo by (simp add: update_conv')
  from loop mk keys mv kk pv others show ?case by auto
qed

lemma complex_value:
  assumes "complex_gains r c gains" and "g \<in> set gains" and "k \<in> fst ` set g"
  shows "\<exists>a. map_of g k = Some (CArr a) \<and> rect r c a"
proof -
  from assms(1,2) have d: "distinct (map fst g)"
    and vs: "\<forall>(k, v)\<in>set g. case v of CArr a \<Rightarrow> rect r c a | _ \<Rightarrow> False"
    by (auto simp: complex_gains_def list_all_iff)
  from assms(3) obtain v where kv: "(k, v) \<in> set g" by auto
  with d have "map_of g k = Some v" by (rule map_of_is_SomeI)
  moreover from vs kv have "case v of CArr a \<Rightarrow> rect r c a | _ \<Rightarrow> False" by auto
  ultimately show ?thesis by (cases v) auto
qed

lemma flag_value:
  assumes "flag_dicts r c gains" and "g \<in> set gains" and "k \<in> fst ` set g"
  shows "\<exists>a. map_of g k = Some (BArr a) \<and> rect r c a"
proof -
  from assms(1,2) have d: "distinct (map fst g)"
    and vs: "\<forall>(k, v)\<in>set g. case v of BArr a \<Rightarrow> rect r c a | _ \<Rightarrow> False"
    by (auto simp: flag_dicts_def list_all_iff)
  from assms(3) obtain v where kv: "(k, v) \<in> set g" by auto
  with d have "map_of g k = Some v" by (rule map_of_is_SomeI)
  moreover from vs kv have "case v of BArr a \<Rightarrow> rect r c a | _ \<Rightarrow> False" by auto
  ultimately show ?thesis by (cases v) auto
qed

lemma reduce_mul_values:
  assumes "gains \<noteq> []" and "complex_gains r c gains" and "\<forall>g\<in>set gains. k \<in> fst ` set g"
  shows "\<exists>a. reduce operator_mul (map (\<lambda>g. dict_get g k (PyFloat 1)) gains) = Inr (CArr a) \<and>
           rect r c a \<and>
           (\<forall>t<r. \<forall>f<c. a ! t ! f = prod_list (map (\<lambda>g. gain_at g k t f) gains))"
proof -
  define arr where "arr g = (case map_of g k of Some (CArr a) \<Rightarrow> a | _ \<Rightarrow> [])" for g
  have val: "map_of g k = Some (CArr (arr g)) \<and> rect r c (arr g)" if "g \<in> set gains" for g
  proof -
    from assms(3) that have "k \<in> fst ` set g" by blast
    from complex_value [OF assms(2) that this] show ?thesis by (auto simp: arr_def)
  qed
  obtain g0 gs where g: "gains = g0 # gs" using assms(1) by (cases gains) auto
  have vals: "map (\<lambda>g. dict_get g k (PyFloat 1)) gains = CArr (arr g0) # map CArr (map arr gs)"
    using val by (simp add: g dict_get_def)
  have r0: "rect r c (arr g0)" using val by (simp add: g)
  have rs: "list_all (rect r c) (map arr gs)" using val by (simp add: g list_all_iff)
  from reduce_from_mul [OF r0 rs] obtain m where
    m: "reduce_from operator_mul (CArr (arr g0)) (map CArr (map arr gs)) = Inr (CArr m)"
    and rm: "rect r c m"
    and em: "\<forall>t<r. \<forall>j<c. m ! t ! j = arr g0 ! t ! j * prod_list (map (\<lambda>b. b ! t ! j) (map arr gs))"
    by blast
  have ga: "gain_at h k t f = arr h ! t ! f" if "h \<in> set gains" for h t f
    using val [OF that] by (simp add: gain_at_def)
  have "prod_list (map (\<lambda>g. gain_at g k t f) gains)
      = arr g0 ! t ! f * prod_list (map (\<lambda>b. b ! t ! f) (map arr gs))" for t f
  proof -
    have eq: "map (\<lambda>g. gain_at g k t f) gs = map (\<lambda>g. arr g ! t ! f) gs"
      by (rule map_cong) (simp_all add: ga g)
    have "prod_list (map (\<lambda>g. gain_at g k t f) gs)
        = prod_list (map (\<lambda>b. b ! t ! f) (map arr gs))"
      unfolding eq by (simp add: comp_def)
    moreover have "gain_at g0 k t f = arr g0 ! t ! f" using ga [of g0] by (simp add: g)
    ultimately show ?thesis by (simp add: g)
  qed
  with m rm em vals show ?thesis by (simp add: reduce_def)
qed

lemma reduce_add_values:
  assumes "gains \<noteq> []" and "flag_dicts r c gains" and "\<forall>g\<in>set gains. k \<in> fst ` set g"
  shows "\<exists>a. reduce operator_add (map (\<lambda>g. dict_get g k (PyBool True)) gains) = Inr (BArr a) \<and>
           rect r c a \<and>
           (\<forall>t<r. \<forall>f<c. a ! t ! f = list_ex (\<lambda>g. flag_at g k t f) gains)"
proof -
  define arr where "arr g = (case map_of g k of Some (BArr a) \<Rightarrow> a | _ \<Rightarrow> [])" for g
  have val: "map_of g k = Some (BArr (arr g)) \<and> rect r c (arr g)" if "g \<in> set gains" for g
  proof -
    from assms(3) that have "k \<in> fst ` set g" by blast
    from flag_value [OF assms(2) that this] show ?thesis by (auto simp: arr_def)
  qed
  obtain g0 gs where g: "gains = g0 # gs" using assms(1) by (cases gains) auto
  have vals: "map (\<lambda>g. dict_get g k (PyBool True)) gains = BArr (arr g0) # map BArr (map arr gs)"
    using val by (simp add: g dict_get_def)
  have r0: "rect r c (arr g0)" using val by (simp add: g)
  have rs: "list_all (rect r c) (map arr gs)" using val by (simp add: g list_all_iff)
  from reduce_from_add [OF r0 rs] obtain m where
    m: "reduce_from operator_add (BArr (arr g0)) (map BArr (map arr gs)) = Inr (BArr m)"
    and rm: "rect r c m"
    and em: "\<forall>t<r. \<forall>j<c. m ! t ! j = (arr g0 ! t ! j \<or> list_ex (\<lambda>b. b ! t ! j) (map arr gs))"
    by blast
  have ga: "flag_at h k t f = arr h ! t ! f" if "h \<in> set gains" for h t f
    using val [OF that] by (simp add: flag_at_def)
  have "list_ex (\<lambda>g. flag_at g k t f) gains
      = (arr g0 ! t ! f \<or> list_ex (\<lambda>b. b ! t ! f) (map arr gs))" for t f
    using ga by (auto simp: g list_ex_iff)
  with m rm em vals show ?thesis by (simp add: reduce_def)
qed

lemma fed_flags_complex:
  assumes "gains \<noteq> []" and "hd gains \<noteq> []" and "complex_gains r c gains"
  shows "fed_flags gains = Inr False"
proof -
  obtain g0 gs where g: "gains = g0 # gs" using assms(1) by (cases gains) auto
  obtain k v g0' where g0: "g0 = (k, v) # g0'" using assms(2) g by (cases g0) auto
  from assms(3) have "case v of CArr a \<Rightarrow> rect r c a | _ \<Rightarrow> False"
    by (simp add: complex_gains_def g g0)
  then show ?thesis by (cases v) (simp_all add: fed_flags_def g g0)
qed

lemma fed_flags_flags:
  assumes "gains \<noteq> []" and "hd gains \<noteq> []" and "flag_dicts r c gains"
  shows "fed_flags gains = Inr True"
proof -
  obtain g0 gs where g: "gains = g0 # gs" using assms(1) by (cases gains) auto
  obtain k v g0' where g0: "g0 = (k, v) # g0'" using assms(2) g by (cases g0) auto
  from assms(3) have "case v of BArr a \<Rightarrow> rect r c a | _ \<Rightarrow> False"
    by (simp add: flag_dicts_def g g0)
  then show ?thesis by (cases v) (simp_all add: fed_flags_def g g0)
qed

text \<open>
  C4 (as amended). For a non-empty list of gain dictionaries whose first dictionary is not
  empty, \<^verbatim>\<open>merge_gains\<close> with \<^verbatim>\<open>merge_shared=True\<close> returns a dictionary whose keys
  are, in sorted order, exactly the keys common to all the dictionaries. When all values
  are complex waterfalls of one shape, the value at a key is the elementwise product of
  the values at that key; when all are boolean waterfalls of one shape, it is their
  elementwise logical or.
\<close>

theorem merge_gains_shared:
  assumes "gains \<noteq> []" and "hd gains \<noteq> []"
  shows "(complex_gains r c gains \<longrightarrow>
      (\<exists>m. merge_gains gains True = Inr m \<and> sorted (map fst m) \<and> distinct (map fst m) \<and>
         set (map fst m) = (\<Inter>g\<in>set gains. fst ` set g) \<and>
         (\<forall>k\<in>set (map fst m). \<exists>a. map_of m k = Some (CArr a) \<and> rect r c a \<and>
            (\<forall>t<r. \<forall>f<c. a ! t ! f = prod_list (map (\<lambda>g. gain_at g k t f) gains))))) \<and>
    (flag_dicts r c gains \<longrightarrow>
      (\<exists>m. merge_gains gains True = Inr m \<and> sorted (map fst m) \<and> distinct (map fst m) \<and>
         set (map fst m) = (\<Inter>g\<in>set gains. fst ` set g) \<and>
         (\<forall>k\<in>set (map fst m). \<exists>a. map_of m k = Some (BArr a) \<and> rect r c a \<and>
            (\<forall>t<r. \<forall>f<c. a ! t ! f = list_ex (\<lambda>g. flag_at g k t f) gains))))"
proof -
  from merge_keys_shared [OF assms(1)] obtain ks where
    ks: "merge_keys gains True = Inr ks" and so: "sorted ks" and di: "distinct ks"
    and se: "set ks = (\<Inter>g\<in>set gains. fst ` set g)" by blast
  have inall: "\<forall>g\<in>set gains. k \<in> fst ` set g" if "k \<in> set ks" for k
    using that se by auto
  have cpx: "\<exists>m. merge_gains gains True = Inr m \<and> sorted (map fst m) \<and> distinct (map fst m) \<and>
         set (map fst m) = (\<Inter>g\<in>set gains. fst ` set g) \<and>
         (\<forall>k\<in>set (map fst m). \<exists>a. map_of m k = Some (CArr a) \<and> rect r c a \<and>
            (\<forall>t<r. \<forall>f<c. a ! t ! f = prod_list (map (\<lambda>g. gain_at g k t f) gains)))"
    if cg: "complex_gains r c gains"
  proof -
    let ?P = "\<lambda>k v. \<exists>a. v = CArr a \<and> rect r c a \<and>
            (\<forall>t<r. \<forall>f<c. a ! t ! f = prod_list (map (\<lambda>g. gain_at g k t f) gains))"
    have ff: "fed_flags gains = Inr False" using assms cg by (rule fed_flags_complex)
    have vals: "\<exists>v. merged_value gains False k = Inr v \<and> ?P k v" if "k \<in> set ks" for k
      using reduce_mul_values [OF assms(1) cg inall [OF that]] by (auto simp: merged_value_def)
    have "\<exists>m. merge_loop gains False ks [] = Inr m \<and> map fst m = map fst [] @ ks \<and>
           (\<forall>k\<in>set ks. \<exists>v. map_of m k = Some v \<and> ?P k v) \<and>
           (\<forall>k. k \<notin> set ks \<longrightarrow> map_of m k = map_of [] k)"
      using merge_loop_ok [where P = ?P and acc = "[]", OF vals di] by simp
    then obtain m where m: "merge_loop gains False ks [] = Inr m" and mk: "map fst m = ks"
      and mv: "\<forall>k\<in>set ks. \<exists>v. map_of m k = Some v \<and> ?P k v" by auto
    have mg: "merge_gains gains True = Inr m" by (simp add: merge_gains_def ks ff m)
    have s1: "sorted (map fst m)" and s2: "distinct (map fst m)"
      and s3: "set (map fst m) = (\<Inter>g\<in>set gains. fst ` set g)"
      using so di se by (simp_all only: mk)
    have s4: "\<exists>a. map_of m k = Some (CArr a) \<and> rect r c a \<and>
        (\<forall>t<r. \<forall>f<c. a ! t ! f = prod_list (map (\<lambda>g. gain_at g k t f) gains))" if "k \<in> set (map fst m)" for k
    proof -
      from that have "k \<in> set ks" by (simp only: mk)
      with mv obtain v where "map_of m k = Some v" and "?P k v" by blast
      then show ?thesis by blast
    qed
    show ?thesis
      by (intro exI [of _ m] conjI ballI mg s1 s2 s3 s4)
  qed
  have flg: "\<exists>m. merge_gains gains True = Inr m \<and> sorted (map fst m) \<and> distinct (map fst m) \<and>
         set (map fst m) = (\<Inter>g\<in>set gains. fst ` set g) \<and>
         (\<forall>k\<in>set (map fst m). \<exists>a. map_of m k = Some (BArr a) \<and> rect r c a \<and>
            (\<forall>t<r. \<forall>f<c. a ! t ! f = list_ex (\<lambda>g. flag_at g k t f) gains))"
    if fd: "flag_dicts r c gains"
  proof -
    let ?P = "\<lambda>k v. \<exists>a. v = BArr a \<and> rect r c a \<and>
            (\<forall>t<r. \<forall>f<c. a ! t ! f = list_ex (\<lambda>g. flag_at g k t f) gains)"
    have ff: "fed_flags gains = Inr True" using assms fd by (rule fed_flags_flags)
    have vals: "\<exists>v. merged_value gains True k = Inr v \<and> ?P k v" if "k \<in> set ks" for k
      using reduce_add_values [OF assms(1) fd inall [OF that]] by (auto simp: merged_value_def)
    have "\<exists>m. merge_loop gains True ks [] = Inr m \<and> map fst m = map fst [] @ ks \<and>
           (\<forall>k\<in>set ks. \<exists>v. map_of m k = Some v \<and> ?P k v) \<and>
           (\<forall>k. k \<notin> set ks \<longrightarrow> map_of m k = map_of [] k)"
      using merge_loop_ok [where P = ?P and acc = "[]", OF vals di] by simp
    then obtain m where m: "merge_loop gains True ks [] = Inr m" and mk: "map fst m = ks"
      and mv: "\<forall>k\<in>set ks. \<exists>v. map_of m k = Some v \<and> ?P k v" by auto
    have mg: "merge_gains gains True = Inr m" by (simp add: merge_gains_def ks ff m)
    have s1: "sorted (map fst m)" and s2: "distinct (map fst m)"
      and s3: "set (map fst m) = (\<Inter>g\<in>set gains. fst ` set g)"
      using so di se by (simp_all only: mk)
    have s4: "\<exists>a. map_of m k = Some (BArr a) \<and> rect r c a \<and>
        (\<forall>t<r. \<forall>f<c. a ! t ! f = list_ex (\<lambda>g. flag_at g k t f) gains)" if "k \<in> set (map fst m)" for k
    proof -
      from that have "k \<in> set ks" by (simp only: mk)
      with mv obtain v where "map_of m k = Some v" and "?P k v" by blast
      then show ?thesis by blast
    qed
    show ?thesis
      by (intro exI [of _ m] conjI ballI mg s1 s2 s3 s4)
  qed
  show ?thesis
    by (intro conjI impI cpx flg)
qed

lemma shape_one_row: "shape [[a, b]] = (1, 2)"
  by (simp add: shape_def)

lemma upt_0_2: "[0..<2] = [0, 1]"
  by (simp add: upt_conv_Cons)

lemmas merge_eval = merged_value_def reduce_def dict_get_def operator_mul_def operator_add_def
  np_binop_def bc2_def shape_one_row bc_dim_def upt_0_2

theorem merge_gains_shared_witness:
  "example_gains \<noteq> [] \<and> hd example_gains \<noteq> [] \<and> complex_gains 1 2 example_gains \<and>
   example_flags \<noteq> [] \<and> hd example_flags \<noteq> [] \<and> flag_dicts 1 2 example_flags \<and>
   merge_gains example_gains True = Inr [((0, ''Jee''), CArr [[10, 21]])] \<and>
   merge_gains example_flags True = Inr [((0, ''Jee''), BArr [[False, True]])] \<and>
   (\<exists>m. merge_gains example_gains True = Inr m \<and>
      set (map fst m) = (\<Inter>g\<in>set example_gains. fst ` set g)) \<and>
   (\<exists>m. merge_gains example_flags True = Inr m \<and>
      set (map fst m) = (\<Inter>g\<in>set example_flags. fst ` set g))"
proof -
  have g1: "example_gains \<noteq> []" and g2: "hd example_gains \<noteq> []"
    and g3: "complex_gains 1 2 example_gains"
    by (simp_all add: example_gains_def complex_gains_def rect_def)
  have f1: "example_flags \<noteq> []" and f2: "hd example_flags \<noteq> []"
    and f3: "flag_dicts 1 2 example_flags"
    by (simp_all add: example_flags_def flag_dicts_def rect_def)
  have k1: "merge_keys example_gains True = Inr [(0, ''Jee'')]"
    by (simp add: example_gains_def merge_keys_def reduce_def set_and_def)
  have k2: "merge_keys example_flags True = Inr [(0, ''Jee'')]"
    by (simp add: example_flags_def merge_keys_def reduce_def set_and_def)
  have d1: "fed_flags example_gains = Inr False"
    by (simp add: example_gains_def fed_flags_def)
  have d2: "fed_flags example_flags = Inr True"
    by (simp add: example_flags_def fed_flags_def)
  have v1: "merged_value example_gains False (0, ''Jee'') = Inr (CArr [[10, 21]])"
    by (simp add: example_gains_def merge_eval)
  have v2: "merged_value example_flags True (0, ''Jee'') = Inr (BArr [[False, True]])"
    by (simp add: example_flags_def merge_eval)
  have e1: "merge_gains example_gains True = Inr [((0, ''Jee''), CArr [[10, 21]])]"
    by (simp add: merge_gains_def k1 d1 v1)
  have e2: "merge_gains example_flags True = Inr [((0, ''Jee''), BArr [[False, True]])]"
    by (simp add: merge_gains_def k2 d2 v2)
  have c1: "\<exists>m. merge_gains example_gains True = Inr m \<and>
      set (map fst m) = (\<Inter>g\<in>set example_gains. fst ` set g)"
  proof -
    from merge_gains_shared [OF g1 g2, of 1 2, THEN conjunct1, THEN mp, OF g3]
    obtain m where "merge_gains example_gains True = Inr m"
      and "set (map fst m) = (\<Inter>g\<in>set example_gains. fst ` set g)"
      by (elim exE conjE) (rule that; assumption)
    then show ?thesis by (intro exI [of _ m] conjI)
  qed
  have c2: "\<exists>m. merge_gains example_flags True = Inr m \<and>
      set (map fst m) = (\<Inter>g\<in>set example_flags. fst ` set g)"
  proof -
    from merge_gains_shared [OF f1 f2, of 1 2, THEN conjunct2, THEN mp, OF f3]
    obtain m where "merge_gains example_flags True = Inr m"
      and "set (map fst m) = (\<Inter>g\<in>set example_flags. fst ` set g)"
      by (elim exE conjE) (rule that; assumption)
    then show ?thesis by (intro exI [of _ m] conjI)
  qed
  show ?thesis
    by (intro conjI g1 g2 g3 f1 f2 f3 e1 e2 c1 c2)
qed

text \<open>
  The claim as stated fails on a list whose first dictionary is empty: the dtype is read
  from the first value of the first dictionary, and \<^verbatim>\<open>list(gains[0].keys())[0]\<close> raises
  \<^verbatim>\<open>IndexError\<close>.
\<close>

theorem merge_gains_shared_counterexample:
  "[[]] \<noteq> ([] :: gaindict list) \<and> complex_gains 1 2 [[]] \<and>
   merge_gains [[]] True = Inl IndexError \<and>
   merge_gains [[], [((0, ''Jee''), CArr [[5, 7]])]] True = Inl IndexError"
  by (simp add: merge_gains_def merge_keys_def reduce_def set_and_def fed_flags_def
      complex_gains_def)

section \<open>Properties of the phase-slope solvers\<close>













section \<open>Errors of \<^verbatim>\<open>global_phase_slope_logcal\<close>\<close>

lemma lower_keys_JONES:
  "lower_keys JONES_STR2NUM_DICT =
     [(''jee'', -5), (''jnn'', -6), (''jen'', -7), (''jne'', -8),
      (''ee'', -5), (''e'', -5), (''nn'', -6), (''n'', -6), (''en'', -7), (''ne'', -8),
      (''jrr'', -1), (''jll'', -2), (''jrl'', -3), (''jlr'', -4),
      (''rr'', -1), (''r'', -1), (''ll'', -2), (''l'', -2), (''rl'', -3), (''lr'', -4)]"
  by (simp add: lower_keys_def JONES_STR2NUM_DICT_def lower_def lower_char_def
      ascii_upper_lower_def)

lemma VISPOLS_eval:
  "VISPOLS = [''rr'', ''ll'', ''rl'', ''lr'', ''ee'', ''nn'', ''en'', ''ne'']"
  unfolding VISPOLS_def polstr2num_def lower_keys_POL_STR2NUM
  by (simp add: getitem_def lower_def lower_char_def ascii_upper_lower_def POL_STR2NUM_DICT_def)

lemma SPLIT_POL_eval:
  "SPLIT_POL =
     [(''rr'', (''Jrr'', ''Jrr'')), (''ll'', (''Jll'', ''Jll'')), (''rl'', (''Jrr'', ''Jll'')),
      (''lr'', (''Jll'', ''Jrr'')), (''ee'', (''Jee'', ''Jee'')), (''nn'', (''Jnn'', ''Jnn'')),
      (''en'', (''Jee'', ''Jnn'')), (''ne'', (''Jnn'', ''Jee''))]"
  unfolding SPLIT_POL_def VISPOLS_eval comply_antpol_def jstr2num_def jnum2str_def
    lower_keys_JONES
  by (simp add: List.map_filter_def getitem_def lower_def lower_char_def ascii_upper_lower_def
      JONES_NUM2STR_DICT_def)



lemma split_pol_nn: "split_pol ''nn'' = Inr (''Jnn'', ''Jnn'')"
  by (simp add: split_pol_def pol_eval SPLIT_POL_eval)











section \<open>Properties of the scrubbing of weights\<close>

































lemma cfin_real: "cfin (Fin a, Fin 0) = Some (of_real a)"
  by (simp add: cfin_def complex_of_real_def)

lemma exact_log_abs_div_real:
  "a \<noteq> 0 \<Longrightarrow> b \<noteq> 0 \<Longrightarrow> exact_log_abs_div (Fin a, Fin 0) (Fin b, Fin 0) = Fin (ln (\<bar>a\<bar> / \<bar>b\<bar>))"
  by (simp add: exact_log_abs_div_def cfin_real norm_divide)



















section \<open>Non-finite values and the linear solver\<close>






section \<open>Properties of the equations of the reference antenna\<close>



























end
